theory Spec2Isabelle
  imports Complex_Main "HOL-Library.Log_Nat"
begin

section \<open>The natal chart component (src/NatalChart.tsx)\<close>

text \<open>
  The component takes two \<open>dayjs\<close> values (date of birth, time of birth), asks the
  ephemeris library for the geocentric vector of seven bodies, turns each vector into a
  longitude in degrees and a zodiac sign, and places signs and bodies on a disc.

  JavaScript numbers are read as real numbers (exact arithmetic) in the main model; the two
  places where the rounding of a binary64 operation could decide a claim, the addition of
  360 and the division by 30, have a model of that operation of their own (section
  \<open>Binary64 arithmetic\<close>). Dates are time values, read in the time zone of the
  process. Strings that hold a glyph are given as their UTF-16 code units.
\<close>

subsection \<open>Static tables\<close>

record zodiac_sign =
  name :: string
  symbol :: "nat list"
  color :: string
  start :: real
  desc :: string

definition ZODIAC_SIGNS :: "zodiac_sign list" where
  "ZODIAC_SIGNS =
    [\<lparr>name = ''Aries'', symbol = [0x2648], color = ''#FF5733'', start = 0, desc = ''The Ram''\<rparr>,
     \<lparr>name = ''Taurus'', symbol = [0x2649], color = ''#4CAF50'', start = 30, desc = ''The Bull''\<rparr>,
     \<lparr>name = ''Gemini'', symbol = [0x264A], color = ''#FFC107'', start = 60, desc = ''The Twins''\<rparr>,
     \<lparr>name = ''Cancer'', symbol = [0x264B], color = ''#B23EFF'', start = 90, desc = ''The Crab''\<rparr>,
     \<lparr>name = ''Leo'', symbol = [0x264C], color = ''#FF9800'', start = 120, desc = ''The Lion''\<rparr>,
     \<lparr>name = ''Virgo'', symbol = [0x264D], color = ''#8BC34A'', start = 150, desc = ''The Virgin''\<rparr>,
     \<lparr>name = ''Libra'', symbol = [0x264E], color = ''#03A9F4'', start = 180, desc = ''The Scales''\<rparr>,
     \<lparr>name = ''Scorpio'', symbol = [0x264F], color = ''#E91E63'', start = 210,
      desc = ''The Scorpion''\<rparr>,
     \<lparr>name = ''Sagittarius'', symbol = [0x2650], color = ''#9C27B0'', start = 240,
      desc = ''The Archer''\<rparr>,
     \<lparr>name = ''Capricorn'', symbol = [0x2651], color = ''#795548'', start = 270,
      desc = ''The Goat''\<rparr>,
     \<lparr>name = ''Aquarius'', symbol = [0x2652], color = ''#00BCD4'', start = 300,
      desc = ''The Water Bearer''\<rparr>,
     \<lparr>name = ''Pisces'', symbol = [0x2653], color = ''#3F51B5'', start = 330,
      desc = ''The Fish''\<rparr>]"

text \<open>The members of \<open>Astronomy.Body\<close> that the table of planets uses.\<close>

datatype body = Sun | Moon | Mercury | Venus | Mars | Jupiter | Saturn

record planet =
  name :: string
  key :: body
  symbol :: "nat list"
  color :: string

definition PLANETS :: "planet list" where
  "PLANETS =
    [\<lparr>name = ''Sun'', key = Sun, symbol = [0x2609], color = ''#FFD700''\<rparr>,
     \<lparr>name = ''Moon'', key = Moon, symbol = [0x263D], color = ''#E0E0E0''\<rparr>,
     \<lparr>name = ''Mercury'', key = Mercury, symbol = [0x263F], color = ''#B0BEC5''\<rparr>,
     \<lparr>name = ''Venus'', key = Venus, symbol = [0x2640], color = ''#F48FB1''\<rparr>,
     \<lparr>name = ''Mars'', key = Mars, symbol = [0x2642], color = ''#EF5350''\<rparr>,
     \<lparr>name = ''Jupiter'', key = Jupiter, symbol = [0x2643], color = ''#FFCA28''\<rparr>,
     \<lparr>name = ''Saturn'', key = Saturn, symbol = [0x2644], color = ''#8D6E63''\<rparr>]"

subsection \<open>Dates\<close>

text \<open>
  A JavaScript \<open>Date\<close> is a time value: milliseconds since the epoch, in UTC. Its
  local-time methods go through the time zone of the process, which ECMAScript gives as
  two offsets: \<open>LocalTZA(t, true)\<close> for a UTC time value and \<open>LocalTZA(t, false)\<close> for
  a local one. The abstract operations below are ECMAScript's, under their names; the
  year, month and day of a time value are read off its day number (months count from 0).
\<close>

type_synonym time_value = int

definition msPerDay :: int where
  "msPerDay = 86400000"

definition msPerHour :: int where
  "msPerHour = 3600000"

definition msPerMinute :: int where
  "msPerMinute = 60000"

definition msPerSecond :: int where
  "msPerSecond = 1000"

definition Day :: "time_value \<Rightarrow> int" where
  "Day t = t div msPerDay"

definition HourFromTime :: "time_value \<Rightarrow> int" where
  "HourFromTime t = (t div msPerHour) mod 24"

definition MinFromTime :: "time_value \<Rightarrow> int" where
  "MinFromTime t = (t div msPerMinute) mod 60"

definition SecFromTime :: "time_value \<Rightarrow> int" where
  "SecFromTime t = (t div msPerSecond) mod 60"

definition msFromTime :: "time_value \<Rightarrow> int" where
  "msFromTime t = t mod msPerSecond"

definition MakeTime :: "int \<Rightarrow> int \<Rightarrow> int \<Rightarrow> int \<Rightarrow> int" where
  "MakeTime h m s milli = h * msPerHour + m * msPerMinute + s * msPerSecond + milli"

definition MakeDate :: "int \<Rightarrow> int \<Rightarrow> time_value" where
  "MakeDate day time = day * msPerDay + time"

definition civil :: "int \<Rightarrow> int \<times> int \<times> int" where
  "civil day =
     (let n = day + 719468;
          era = n div 146097;
          doe = n mod 146097;
          yoe = (doe - doe div 1460 + doe div 36524 - doe div 146096) div 365;
          doy = doe - (365 * yoe + yoe div 4 - yoe div 100);
          mp = (5 * doy + 2) div 153;
          d = doy - (153 * mp + 2) div 5 + 1;
          m = (if mp < 10 then mp + 3 else mp - 9);
          yr = yoe + era * 400 + (if m \<le> 2 then 1 else 0)
      in (yr, m - 1, d))"

definition YearFromTime :: "time_value \<Rightarrow> int" where
  "YearFromTime t = fst (civil (Day t))"

definition MonthFromTime :: "time_value \<Rightarrow> int" where
  "MonthFromTime t = fst (snd (civil (Day t)))"

definition DateFromTime :: "time_value \<Rightarrow> int" where
  "DateFromTime t = snd (snd (civil (Day t)))"

record zone =
  offset_utc :: "time_value \<Rightarrow> int"
  offset_local :: "time_value \<Rightarrow> int"

definition LocalTime :: "zone \<Rightarrow> time_value \<Rightarrow> time_value" where
  "LocalTime tz t = t + offset_utc tz t"

definition UTC :: "zone \<Rightarrow> time_value \<Rightarrow> time_value" where
  "UTC tz t = t - offset_local tz t"

type_synonym jsdate = time_value

definition getFullYear :: "zone \<Rightarrow> jsdate \<Rightarrow> int" where
  "getFullYear tz tv = YearFromTime (LocalTime tz tv)"

definition getMonth :: "zone \<Rightarrow> jsdate \<Rightarrow> int" where
  "getMonth tz tv = MonthFromTime (LocalTime tz tv)"

definition getDate :: "zone \<Rightarrow> jsdate \<Rightarrow> int" where
  "getDate tz tv = DateFromTime (LocalTime tz tv)"

definition getHours :: "zone \<Rightarrow> jsdate \<Rightarrow> int" where
  "getHours tz tv = HourFromTime (LocalTime tz tv)"

definition getMinutes :: "zone \<Rightarrow> jsdate \<Rightarrow> int" where
  "getMinutes tz tv = MinFromTime (LocalTime tz tv)"

definition getSeconds :: "zone \<Rightarrow> jsdate \<Rightarrow> int" where
  "getSeconds tz tv = SecFromTime (LocalTime tz tv)"

definition getMilliseconds :: "zone \<Rightarrow> jsdate \<Rightarrow> int" where
  "getMilliseconds tz tv = msFromTime (LocalTime tz tv)"

text \<open>
  \<open>setHours(h)\<close>, \<open>setMinutes(m)\<close> and \<open>setSeconds(s)\<close> with one argument:
  the local time is taken apart, one field is replaced, and the wall-clock time so made
  is converted back with \<open>UTC\<close>.
\<close>

definition setHours :: "zone \<Rightarrow> int \<Rightarrow> jsdate \<Rightarrow> jsdate" where
  "setHours tz h tv =
     (let t = LocalTime tz tv
      in UTC tz (MakeDate (Day t) (MakeTime h (MinFromTime t) (SecFromTime t) (msFromTime t))))"

definition setMinutes :: "zone \<Rightarrow> int \<Rightarrow> jsdate \<Rightarrow> jsdate" where
  "setMinutes tz m tv =
     (let t = LocalTime tz tv
      in UTC tz (MakeDate (Day t) (MakeTime (HourFromTime t) m (SecFromTime t) (msFromTime t))))"

definition setSeconds :: "zone \<Rightarrow> int \<Rightarrow> jsdate \<Rightarrow> jsdate" where
  "setSeconds tz s tv =
     (let t = LocalTime tz tv
      in UTC tz (MakeDate (Day t) (MakeTime (HourFromTime t) (MinFromTime t) s (msFromTime t))))"

text \<open>
  A \<open>dayjs\<close> value wraps a \<open>Date\<close> and is held here by that date's time value. Its
  getters \<open>.hour()\<close> and \<open>.minute()\<close> are the date's \<open>getHours\<close> and
  \<open>getMinutes\<close>; its setters \<open>.hour(h)\<close>, \<open>.minute(m)\<close>, \<open>.second(s)\<close> call
  \<open>setHours\<close>, \<open>setMinutes\<close>, \<open>setSeconds\<close> on a copy; \<open>.toDate()\<close> gives
  a \<open>Date\<close> of the same time value.
\<close>

type_synonym dayjs = time_value

definition hour :: "zone \<Rightarrow> dayjs \<Rightarrow> int" where
  "hour tz d = getHours tz d"

definition minute :: "zone \<Rightarrow> dayjs \<Rightarrow> int" where
  "minute tz d = getMinutes tz d"

definition set_hour :: "zone \<Rightarrow> int \<Rightarrow> dayjs \<Rightarrow> dayjs" where
  "set_hour tz h d = setHours tz h d"

definition set_minute :: "zone \<Rightarrow> int \<Rightarrow> dayjs \<Rightarrow> dayjs" where
  "set_minute tz m d = setMinutes tz m d"

definition set_second :: "zone \<Rightarrow> int \<Rightarrow> dayjs \<Rightarrow> dayjs" where
  "set_second tz s d = setSeconds tz s d"

definition toDate :: "dayjs \<Rightarrow> jsdate" where
  "toDate d = d"

subsection \<open>The ephemeris library\<close>

text \<open>
  \<open>Astronomy.GeoVector(body, date, aberration)\<close> is the library's; it is a parameter of
  the model. It returns a vector or throws.
\<close>

record vector =
  x :: real
  y :: real
  z :: real

datatype error = Thrown string

type_synonym provider = "body \<Rightarrow> jsdate \<Rightarrow> bool \<Rightarrow> error + vector"

subsection \<open>JavaScript primitives the component uses\<close>

text \<open>\<open>Math.atan2(y, x)\<close>, on reals.\<close>

definition atan2 :: "real \<Rightarrow> real \<Rightarrow> real" where
  "atan2 b a =
     (if 0 < a then arctan (b / a)
      else if a < 0 then (if 0 \<le> b then arctan (b / a) + pi else arctan (b / a) - pi)
      else if 0 < b then pi / 2
      else if b < 0 then - (pi / 2)
      else 0)"

text \<open>\<open>xs[i]\<close>: \<open>undefined\<close> (here \<open>None\<close>) when \<open>i\<close> is not an index of the array.\<close>

definition js_index :: "'a list \<Rightarrow> int \<Rightarrow> 'a option" where
  "js_index xs i = (if 0 \<le> i \<and> i < int (length xs) then Some (xs ! nat i) else None)"

text \<open>\<open>v || ""\<close> for a string or \<open>undefined\<close>: both falsy values give the empty string.\<close>

definition or_empty :: "string option \<Rightarrow> string" where
  "or_empty v = (case v of None \<Rightarrow> '''' | Some s \<Rightarrow> (if s = '''' then '''' else s))"

text \<open>
  \<open>xs.map(f)\<close> where \<open>f\<close> can throw: the elements are visited in order and the first
  exception leaves the call; no array is returned then.
\<close>

fun js_map :: "('a \<Rightarrow> error + 'b) \<Rightarrow> 'a list \<Rightarrow> error + 'b list" where
  "js_map f [] = Inr []"
| "js_map f (a # as) =
     (case f a of
        Inl e \<Rightarrow> Inl e
      | Inr b \<Rightarrow> (case js_map f as of Inl e \<Rightarrow> Inl e | Inr bs \<Rightarrow> Inr (b # bs)))"

subsection \<open>planetaryPositions\<close>

record position = planet +
  degree :: real
  sign :: string

text \<open>
  The component runs in a process with a time zone \<open>tz\<close>; the \<open>dayjs\<close> calls
  read it.
\<close>

definition dateObj :: "zone \<Rightarrow> dayjs \<Rightarrow> dayjs \<Rightarrow> jsdate" where
  "dateObj tz dob tob =
     toDate (set_second tz 0 (set_minute tz (minute tz tob) (set_hour tz (hour tz tob) dob)))"

text \<open>
  Hour \<open>h\<close> of local day \<open>day\<close> exists in the zone when every wall-clock time in
  it converts to UTC and back unchanged. It does not in the hour that a change to summer
  time skips.
\<close>

definition hour_exists :: "zone \<Rightarrow> int \<Rightarrow> int \<Rightarrow> bool" where
  "hour_exists tz day h \<longleftrightarrow>
     (\<forall>w. Day w = day \<and> HourFromTime w = h \<longrightarrow> LocalTime tz (UTC tz w) = w)"

text \<open>
  The callback of \<open>PLANETS.map\<close>, in its steps: \<open>normalize\<close> is the conditional
  addition of 360, \<open>signIndex\<close> and \<open>signName\<close> are the two constants of those
  names, and \<open>locate\<close> is what the callback returns for a planet once the provider has
  returned its vector.
\<close>

definition normalize :: "real \<Rightarrow> real" where
  "normalize longitude = (if longitude < 0 then longitude + 360 else longitude)"

definition signIndex :: "real \<Rightarrow> int" where
  "signIndex longitude = \<lfloor>longitude / 30\<rfloor>"

definition signName :: "real \<Rightarrow> string" where
  "signName longitude =
     or_empty (map_option zodiac_sign.name (js_index ZODIAC_SIGNS (signIndex longitude)))"

definition locate :: "planet \<Rightarrow> vector \<Rightarrow> position" where
  "locate p v =
     (let longitude = normalize (atan2 (y v) (x v) * (180 / pi))
      in planet.extend p \<lparr>degree = longitude, sign = signName longitude\<rparr>)"

definition planetaryPositions ::
  "zone \<Rightarrow> provider \<Rightarrow> dayjs \<Rightarrow> dayjs \<Rightarrow> error + position list" where
  "planetaryPositions tz GeoVector dob tob =
     js_map (\<lambda>p. case GeoVector (key p) (dateObj tz dob tob) True of
                    Inl e \<Rightarrow> Inl e
                  | Inr v \<Rightarrow> Inr (locate p v))
       PLANETS"

subsection \<open>Geometry of the disc\<close>

definition size_svg :: real where
  "size_svg = 320"

definition center :: real where
  "center = size_svg / 2"

definition radius :: real where
  "radius = size_svg / 2 - 10"

definition innerRadius :: real where
  "innerRadius = radius - 40"

record coords =
  cx :: real
  cy :: real

definition getCoordinates :: "real \<Rightarrow> real \<Rightarrow> coords" where
  "getCoordinates deg r =
     (let radians = - deg * (pi / 180)
      in \<lparr>cx = center + r * cos radians, cy = center + r * sin radians\<rparr>)"

definition planetRadius :: "nat \<Rightarrow> real" where
  "planetRadius index = innerRadius - 20 - real (index mod 2) * 15"

text \<open>
  What the two \<open>map\<close> calls of the rendering compute: for each sign the end of its
  divider line and the place of its glyph, for each body (with its index in the list of
  positions) the place of its marker.
\<close>

definition signMarks :: "(coords \<times> coords) list" where
  "signMarks =
     map (\<lambda>s. (getCoordinates (start s) radius, getCoordinates (start s + 15) (radius - 20)))
       ZODIAC_SIGNS"

definition planetMarks :: "position list \<Rightarrow> coords list" where
  "planetMarks ps =
     map (\<lambda>(index, p). getCoordinates (degree p) (planetRadius index)) (enumerate 0 ps)"

subsection \<open>Binary64 arithmetic\<close>

text \<open>
  A JavaScript number is an IEEE 754 binary64 value and \<open>+\<close> rounds the exact sum to
  the nearest such value, ties to the even significand. A finite value is held as
  \<open>Finite m e\<close>, standing for \<open>m * 2 ^ e\<close>. The sums taken here stay far below the
  overflow threshold, and a sum of two binary64 values is never rounded in the subnormal
  range, so rounding to 53 significant bits is all that \<open>add64\<close> needs.
\<close>

datatype binary64 = Finite int int

fun valof :: "binary64 \<Rightarrow> real" where
  "valof (Finite m e) = real_of_int m * 2 powi e"

fun is_binary64 :: "binary64 \<Rightarrow> bool" where
  "is_binary64 (Finite m e) \<longleftrightarrow> \<bar>m\<bar> < 2 ^ 53 \<and> - 1074 \<le> e \<and> e \<le> 971"

definition round_ties_to_even :: "int \<Rightarrow> int \<Rightarrow> binary64" where
  "round_ties_to_even m e =
     (let k = bitlen \<bar>m\<bar> - 53
      in if k \<le> 0 then Finite m e
         else let q = \<bar>m\<bar> div 2 ^ nat k;
                  r = \<bar>m\<bar> mod 2 ^ nat k;
                  half = 2 ^ nat (k - 1);
                  q' = (if half < r \<or> (r = half \<and> odd q) then q + 1 else q)
              in Finite (sgn m * q') (e + k))"

fun add64 :: "binary64 \<Rightarrow> binary64 \<Rightarrow> binary64" where
  "add64 (Finite m1 e1) (Finite m2 e2) =
     (let e = min e1 e2
      in round_ties_to_even (m1 * 2 ^ nat (e1 - e) + m2 * 2 ^ nat (e2 - e)) e)"

fun less64 :: "binary64 \<Rightarrow> binary64 \<Rightarrow> bool" where
  "less64 (Finite m1 e1) (Finite m2 e2) =
     (let e = min e1 e2 in m1 * 2 ^ nat (e1 - e) < m2 * 2 ^ nat (e2 - e))"

text \<open>\<open>if (longitude < 0) longitude += 360\<close>, on binary64 values.\<close>

definition normalize64 :: "binary64 \<Rightarrow> binary64" where
  "normalize64 longitude =
     (if less64 longitude (Finite 0 0) then add64 longitude (Finite 360 0) else longitude)"

text \<open>
  \<open>longitude / 30\<close> is a binary64 division: its result is a binary64 value nearest
  to the exact quotient (which of two equally near ones does not matter below).
\<close>

definition nearest64 :: "real \<Rightarrow> binary64 \<Rightarrow> bool" where
  "nearest64 t q \<longleftrightarrow>
     is_binary64 q \<and> (\<forall>d. is_binary64 d \<longrightarrow> \<bar>valof q - t\<bar> \<le> \<bar>valof d - t\<bar>)"

subsection \<open>Sample inputs\<close>

text \<open>
  Two time zones: UTC, and one that goes from five to four hours behind UTC at
  2021-03-14T07:00Z, so that its local hour 2 of that day does not exist.
\<close>

definition utc_zone :: zone where
  "utc_zone = \<lparr>offset_utc = (\<lambda>t. 0), offset_local = (\<lambda>t. 0)\<rparr>"

definition spring_zone :: zone where
  "spring_zone =
     \<lparr>offset_utc = (\<lambda>t. if t < 1615705200000 then - 5 * msPerHour else - 4 * msPerHour),
      offset_local =
        (\<lambda>t. if t < 1615705200000 - 4 * msPerHour then - 5 * msPerHour else - 4 * msPerHour)\<rparr>"

text \<open>
  In UTC: a date of birth, 1990-06-15 with the time of day 09:41:27.250 that a date picker
  leaves in it, and two times of birth, 14:30:12.345 and 14:30:59.001 on 2024-01-01. In the
  second zone: a date of birth on 2021-03-14 (09:41:27.250 local) and the time of birth
  02:30 (on 2021-01-01, local).
\<close>

definition sample_dob :: dayjs where
  "sample_dob = 645442887250"

definition sample_tob :: dayjs where
  "sample_tob = 1704119412345"

definition later_tob :: dayjs where
  "later_tob = 1704119459001"

definition gap_dob :: dayjs where
  "gap_dob = 1615729287250"

definition gap_tob :: dayjs where
  "gap_tob = 1609486200000"

text \<open>
  Four providers: one that answers for every body, one that throws for Mars, one that
  throws for Saturn, and one that answers only when asked about the instant the sample
  inputs combine to.
\<close>

definition sample_vector :: "body \<Rightarrow> vector" where
  "sample_vector b =
     (case b of
        Sun \<Rightarrow> \<lparr>x = 1, y = 0, z = 0\<rparr>
      | Moon \<Rightarrow> \<lparr>x = 0, y = 1, z = 0\<rparr>
      | Mercury \<Rightarrow> \<lparr>x = - 1, y = 0, z = 0\<rparr>
      | Venus \<Rightarrow> \<lparr>x = 0, y = - 1, z = 0\<rparr>
      | Mars \<Rightarrow> \<lparr>x = 1, y = 1, z = 0\<rparr>
      | Jupiter \<Rightarrow> \<lparr>x = - 1, y = - 1, z = 0\<rparr>
      | Saturn \<Rightarrow> \<lparr>x = 1, y = - 1, z = 0\<rparr>)"

definition sample_provider :: provider where
  "sample_provider b d aberration = Inr (sample_vector b)"

definition failing_provider :: provider where
  "failing_provider b d aberration =
     (if b = Mars then Inl (Thrown ''no position'') else Inr (sample_vector b))"


definition instant_provider :: provider where
  "instant_provider b d aberration =
     (if d = dateObj utc_zone sample_dob sample_tob \<and> aberration then Inr (sample_vector b)
      else Inl (Thrown ''not asked''))"

section \<open>Properties\<close>

subsection \<open>Mapping over the table of planets\<close>

lemma js_map_Inr_iff:
  "js_map f as = Inr bs \<longleftrightarrow> list_all2 (\<lambda>a b. f a = Inr b) as bs"
proof (induction as arbitrary: bs)
  case Nil
  show ?case by auto
next
  case (Cons a as)
  show ?case
    by (cases bs; cases "f a"; cases "js_map f as") (auto simp: Cons.IH [symmetric])
qed

lemma js_map_returns_iff:
  "(\<exists>bs. js_map f as = Inr bs) \<longleftrightarrow> (\<forall>a\<in>set as. \<exists>b. f a = Inr b)"
proof (induction as)
  case Nil
  show ?case by simp
next
  case (Cons a as)
  show ?case
  proof (cases "f a")
    case (Inl e)
    then show ?thesis by auto
  next
    case (Inr b)
    then show ?thesis using Cons.IH by (auto split: sum.splits)
  qed
qed



lemma length_PLANETS: "length PLANETS = 7"
  by (simp add: PLANETS_def)

lemma planetaryPositions_Inr_iff:
  "planetaryPositions tz g dob tob = Inr ps \<longleftrightarrow>
   list_all2 (\<lambda>p b. \<exists>v. g (key p) (dateObj tz dob tob) True = Inr v \<and> b = locate p v) PLANETS ps"
proof -
  have "(\<lambda>p b. (case g (key p) (dateObj tz dob tob) True of Inl e \<Rightarrow> Inl e | Inr v \<Rightarrow> Inr (locate p v)) = Inr b)
      = (\<lambda>p b. \<exists>v. g (key p) (dateObj tz dob tob) True = Inr v \<and> b = locate p v)"
    by (auto simp: fun_eq_iff split: sum.splits)
  then show ?thesis
    by (simp add: planetaryPositions_def js_map_Inr_iff)
qed

lemma planetaryPositions_returns_iff:
  "(\<exists>ps. planetaryPositions tz g dob tob = Inr ps) \<longleftrightarrow>
   (\<forall>p\<in>set PLANETS. \<exists>v. g (key p) (dateObj tz dob tob) True = Inr v)"
proof -
  have "(\<exists>b. (case s of Inl e \<Rightarrow> Inl e | Inr v \<Rightarrow> Inr (locate p v)) = Inr b) \<longleftrightarrow> (\<exists>v. s = Inr v)"
    for s :: "error + vector" and p
    by (cases s) auto
  then show ?thesis
    by (simp add: planetaryPositions_def js_map_returns_iff)
qed

lemma planetaryPositions_Inr_nth:
  "planetaryPositions tz g dob tob = Inr ps \<longleftrightarrow>
   length ps = 7 \<and>
   (\<forall>i<7. \<exists>v. g (key (PLANETS ! i)) (dateObj tz dob tob) True = Inr v \<and>
            ps ! i = locate (PLANETS ! i) v)"
  unfolding planetaryPositions_Inr_iff list_all2_conv_all_nth length_PLANETS by auto

subsection \<open>Local time\<close>

lemma fields_of_wall_clock:
  assumes h: "0 \<le> h" "h < 24" and m: "0 \<le> m" "m < 60" and s: "0 \<le> s" "s < 60"
    and ms: "0 \<le> milli" "milli < 1000"
  shows "Day (MakeDate day (MakeTime h m s milli)) = day"
    and "HourFromTime (MakeDate day (MakeTime h m s milli)) = h"
    and "MinFromTime (MakeDate day (MakeTime h m s milli)) = m"
    and "SecFromTime (MakeDate day (MakeTime h m s milli)) = s"
    and "msFromTime (MakeDate day (MakeTime h m s milli)) = milli"
proof -
  let ?w = "MakeDate day (MakeTime h m s milli)"
  have w: "?w = day * 86400000 + h * 3600000 + m * 60000 + s * 1000 + milli"
    by (simp add: MakeDate_def MakeTime_def msPerDay_def msPerHour_def msPerMinute_def
        msPerSecond_def)
  have "?w = 1000 * (day * 86400 + h * 3600 + m * 60 + s) + milli" unfolding w by simp
  from int_div_pos_eq [OF this ms] int_mod_pos_eq [OF this ms]
  have d1: "?w div 1000 = day * 86400 + h * 3600 + m * 60 + s" and "?w mod 1000 = milli" .
  then show "msFromTime ?w = milli" by (simp add: msFromTime_def msPerSecond_def)
  have "day * 86400 + h * 3600 + m * 60 + s = 60 * (day * 1440 + h * 60 + m) + s" by simp
  from int_mod_pos_eq [OF this s] show "SecFromTime ?w = s"
    by (simp only: SecFromTime_def msPerSecond_def d1)
  have r2: "0 \<le> s * 1000 + milli" "s * 1000 + milli < 60000" using s ms by simp_all
  have "?w = 60000 * (day * 1440 + h * 60 + m) + (s * 1000 + milli)" unfolding w by simp
  from int_div_pos_eq [OF this r2] have d2: "?w div 60000 = day * 1440 + h * 60 + m" .
  have "day * 1440 + h * 60 + m = 60 * (day * 24 + h) + m" by simp
  from int_mod_pos_eq [OF this m] show "MinFromTime ?w = m"
    by (simp only: MinFromTime_def msPerMinute_def d2)
  have r3: "0 \<le> m * 60000 + s * 1000 + milli" "m * 60000 + s * 1000 + milli < 3600000"
    using m s ms by simp_all
  have "?w = 3600000 * (day * 24 + h) + (m * 60000 + s * 1000 + milli)" unfolding w by simp
  from int_div_pos_eq [OF this r3] have d3: "?w div 3600000 = day * 24 + h" .
  have "day * 24 + h = 24 * day + h" by simp
  from int_mod_pos_eq [OF this h] show "HourFromTime ?w = h"
    by (simp only: HourFromTime_def msPerHour_def d3)
  have r4: "0 \<le> h * 3600000 + m * 60000 + s * 1000 + milli"
    "h * 3600000 + m * 60000 + s * 1000 + milli < 86400000"
    using h m s ms by simp_all
  have "?w = 86400000 * day + (h * 3600000 + m * 60000 + s * 1000 + milli)" unfolding w by simp
  from int_div_pos_eq [OF this r4] show "Day ?w = day"
    by (simp only: Day_def msPerDay_def)
qed

lemma field_ranges:
  "0 \<le> HourFromTime t \<and> HourFromTime t < 24 \<and> 0 \<le> MinFromTime t \<and> MinFromTime t < 60 \<and>
   0 \<le> SecFromTime t \<and> SecFromTime t < 60 \<and> 0 \<le> msFromTime t \<and> msFromTime t < 1000"
  by (simp add: HourFromTime_def MinFromTime_def SecFromTime_def msFromTime_def msPerSecond_def)

text \<open>
  The local time of the combined timestamp, when the hour asked for exists: the day and
  milliseconds of the date of birth, the hour and minute of the time of birth, 0 seconds.
\<close>

lemma local_dateObj:
  assumes "hour_exists tz (Day (LocalTime tz dob)) (hour tz tob)"
  shows "LocalTime tz (dateObj tz dob tob) =
           MakeDate (Day (LocalTime tz dob))
             (MakeTime (hour tz tob) (minute tz tob) 0 (msFromTime (LocalTime tz dob)))"
proof -
  define l0 where "l0 = LocalTime tz dob"
  define h where "h = hour tz tob"
  define m where "m = minute tz tob"
  have h: "0 \<le> h" "h < 24" and m: "0 \<le> m" "m < 60"
    using field_ranges [of "LocalTime tz tob"]
    by (simp_all add: h_def m_def hour_def minute_def getHours_def getMinutes_def)
  have s0: "0 \<le> SecFromTime l0" "SecFromTime l0 < 60"
    and m0: "0 \<le> MinFromTime l0" "MinFromTime l0 < 60"
    and ms0: "0 \<le> msFromTime l0" "msFromTime l0 < 1000"
    using field_ranges [of l0] by simp_all
  have again: "LocalTime tz (UTC tz (MakeDate (Day l0) (MakeTime h mm s milli))) =
      MakeDate (Day l0) (MakeTime h mm s milli)"
    if "0 \<le> mm" "mm < 60" "0 \<le> s" "s < 60" "0 \<le> milli" "milli < 1000" for mm s milli
    using assms fields_of_wall_clock(1,2) [OF h that]
    unfolding hour_exists_def l0_def [symmetric] h_def [symmetric] by blast
  define w1 where "w1 = MakeDate (Day l0) (MakeTime h (MinFromTime l0) (SecFromTime l0) (msFromTime l0))"
  define w2 where "w2 = MakeDate (Day l0) (MakeTime h m (SecFromTime l0) (msFromTime l0))"
  define w3 where "w3 = MakeDate (Day l0) (MakeTime h m 0 (msFromTime l0))"
  have t1: "set_hour tz h dob = UTC tz w1"
    by (simp add: set_hour_def setHours_def Let_def w1_def l0_def)
  have l1: "LocalTime tz (UTC tz w1) = w1"
    unfolding w1_def by (rule again [OF m0 s0 ms0])
  have f1: "Day w1 = Day l0" "HourFromTime w1 = h" "SecFromTime w1 = SecFromTime l0"
    "msFromTime w1 = msFromTime l0"
    unfolding w1_def using fields_of_wall_clock [OF h m0 s0 ms0] by simp_all
  have t2: "set_minute tz m (UTC tz w1) = UTC tz w2"
    by (simp add: set_minute_def setMinutes_def Let_def l1 f1 w2_def)
  have l2: "LocalTime tz (UTC tz w2) = w2"
    unfolding w2_def by (rule again [OF m s0 ms0])
  have f2: "Day w2 = Day l0" "HourFromTime w2 = h" "MinFromTime w2 = m"
    "msFromTime w2 = msFromTime l0"
    unfolding w2_def using fields_of_wall_clock [OF h m s0 ms0] by simp_all
  have t3: "set_second tz 0 (UTC tz w2) = UTC tz w3"
    by (simp add: set_second_def setSeconds_def Let_def l2 f2 w3_def)
  have l3: "LocalTime tz (UTC tz w3) = w3"
    unfolding w3_def by (rule again [OF m _ _ ms0]) simp_all
  have "dateObj tz dob tob = UTC tz w3"
    by (simp add: dateObj_def toDate_def h_def [symmetric] m_def [symmetric] t1 t2 t3)
  with l3 show ?thesis
    unfolding w3_def l0_def h_def m_def by simp
qed

subsection \<open>Longitudes and signs in exact arithmetic\<close>

lemma atan2_range: "- pi < atan2 b a \<and> atan2 b a \<le> pi"
proof -
  have lo: "- (pi / 2) < arctan t" and hi: "arctan t < pi / 2" for t :: real
    by (rule arctan_lbound, rule arctan_ubound)
  consider "0 < a" | "a < 0" "0 \<le> b" | "a < 0" "b < 0" | "a = 0" by linarith
  then show ?thesis
  proof cases
    case 1
    then have "atan2 b a = arctan (b / a)" by (simp add: atan2_def)
    with lo [of "b / a"] hi [of "b / a"] pi_gt_zero show ?thesis by linarith
  next
    case 2
    then have "b / a \<le> 0" by (simp add: divide_nonneg_neg)
    then have "arctan (b / a) \<le> 0" by simp
    moreover from 2 have "atan2 b a = arctan (b / a) + pi" by (simp add: atan2_def)
    ultimately show ?thesis using lo [of "b / a"] pi_gt_zero by linarith
  next
    case 3
    then have "0 < b / a" by (simp add: divide_neg_neg)
    then have "0 < arctan (b / a)" by simp
    moreover from 3 have "atan2 b a = arctan (b / a) - pi" by (simp add: atan2_def)
    ultimately show ?thesis using hi [of "b / a"] pi_gt_zero by linarith
  next
    case 4
    then have "atan2 b a = pi / 2 \<or> atan2 b a = - (pi / 2) \<or> atan2 b a = 0"
      by (simp add: atan2_def)
    then show ?thesis using pi_gt_zero by linarith
  qed
qed

lemma degrees_range: "- 180 < atan2 b a * (180 / pi) \<and> atan2 b a * (180 / pi) \<le> 180"
proof -
  have k: "0 < 180 / pi" by simp
  have "- pi < atan2 b a" "atan2 b a \<le> pi" using atan2_range by auto
  then have "- pi * (180 / pi) < atan2 b a * (180 / pi)" "atan2 b a * (180 / pi) \<le> pi * (180 / pi)"
    using k by (simp_all only: mult_strict_right_mono mult_right_mono less_imp_le)
  then show ?thesis by simp
qed

lemma normalize_exact_range:
  "0 \<le> normalize (atan2 b a * (180 / pi)) \<and> normalize (atan2 b a * (180 / pi)) < 360"
  using degrees_range [of b a] by (simp add: normalize_def)

lemma sign_table:
  "i < 12 \<Longrightarrow> start (ZODIAC_SIGNS ! i) = 30 * real i \<and> zodiac_sign.name (ZODIAC_SIGNS ! i) \<noteq> ''''"
proof -
  assume "i < 12"
  then have "i \<in> {0, 1, 2, 3, 4, 5, 6, 7, 8, 9, 10, 11}" by (simp; arith)
  then show ?thesis by (auto simp add: ZODIAC_SIGNS_def)
qed

lemma length_ZODIAC_SIGNS: "length ZODIAC_SIGNS = 12"
  by (simp add: ZODIAC_SIGNS_def)

lemma signIndex_bounds: "real_of_int (signIndex L) * 30 \<le> L \<and> L < real_of_int (signIndex L) * 30 + 30"
proof -
  have "real_of_int \<lfloor>L / 30\<rfloor> \<le> L / 30" "L / 30 < real_of_int \<lfloor>L / 30\<rfloor> + 1"
    by linarith+
  then show ?thesis unfolding signIndex_def by linarith
qed

lemma signIndex_in_table: "0 \<le> L \<Longrightarrow> L < 360 \<Longrightarrow> 0 \<le> signIndex L \<and> signIndex L < 12"
  unfolding signIndex_def by (simp add: floor_less_iff)



subsection \<open>Points on the disc\<close>

lemma planetMarks_nth:
  "i < length ps \<Longrightarrow> planetMarks ps ! i = getCoordinates (degree (ps ! i)) (planetRadius i)"
  by (simp add: planetMarks_def nth_enumerate_eq)

lemma signMarks_nth:
  "i < 12 \<Longrightarrow> signMarks ! i =
     (getCoordinates (start (ZODIAC_SIGNS ! i)) radius,
      getCoordinates (start (ZODIAC_SIGNS ! i) + 15) (radius - 20))"
  by (simp add: signMarks_def length_ZODIAC_SIGNS)

lemma clockwise_turn:
  assumes "0 < r" and "0 < d2 - d1" and "d2 - d1 < 180"
  shows "(cx (getCoordinates d1 r) - center) * (cy (getCoordinates d2 r) - center)
       - (cy (getCoordinates d1 r) - center) * (cx (getCoordinates d2 r) - center) < 0"
proof -
  let ?a = "d1 * (pi / 180)" and ?b = "d2 * (pi / 180)"
  have "0 < ?b - ?a" using assms(2) pi_gt_zero by (simp add: left_diff_distrib [symmetric])
  moreover have "?b - ?a < pi"
  proof -
    have "(d2 - d1) * (pi / 180) < 180 * (pi / 180)"
      using assms(3) pi_gt_zero by (intro mult_strict_right_mono) simp_all
    then show ?thesis by (simp add: left_diff_distrib)
  qed
  ultimately have s: "0 < sin (?b - ?a)" by (rule sin_gt_zero)
  have p1: "cx (getCoordinates d1 r) - center = r * cos ?a"
    "cy (getCoordinates d1 r) - center = - (r * sin ?a)"
    and p2: "cx (getCoordinates d2 r) - center = r * cos ?b"
    "cy (getCoordinates d2 r) - center = - (r * sin ?b)"
    by (simp_all add: getCoordinates_def)
  have "(r * cos ?a) * (- (r * sin ?b)) - (- (r * sin ?a)) * (r * cos ?b)
      = - (r * r * sin (?b - ?a))"
    by (simp add: sin_diff algebra_simps)
  moreover have "0 < r * r * sin (?b - ?a)" using assms(1) s by simp
  ultimately show ?thesis unfolding p1 p2 by simp
qed

subsection \<open>Binary64 rounding in the longitude and the index of the sign\<close>

lemma round_just_below_360:
  fixes n :: nat and a :: int
  assumes n: "45 \<le> n" and a: "0 < a" "a \<le> 2 ^ (n - 45)"
  shows "round_ties_to_even (360 * 2 ^ n - a) (- int n) = Finite (360 * 2 ^ 44) (- 44)"
proof -
  define k where "k = n - 44"
  define M where "M = 360 * 2 ^ n - a"
  from n have k: "0 < k" "n = 44 + k" "n - 45 = k - 1" by (simp_all add: k_def)
  have pw: "(2::int) ^ n = 2 ^ 44 * 2 ^ k" unfolding k(2) by (simp only: power_add)
  have two: "(2::int) ^ k = 2 * 2 ^ (k - 1)" using k(1) by (cases k) simp_all
  have a_le: "a \<le> 2 ^ (k - 1)" using a(2) k(3) by simp
  have a_le_n: "a \<le> 2 ^ n"
  proof -
    have "(2::int) ^ (k - 1) \<le> 2 ^ n" by (intro power_increasing) (simp_all add: k(2))
    with a_le show ?thesis by linarith
  qed
  have pos: "0 < (2::int) ^ n" by simp
  have p9: "(2::int) ^ (n + 9) = 512 * 2 ^ n" and p8: "(2::int) ^ (n + 8) = 256 * 2 ^ n"
    by (simp_all add: power_add)
  have M_pos: "0 < M" using a_le_n pos unfolding M_def by linarith
  have hi: "M < 2 ^ (n + 9)" using a(1) pos unfolding M_def p9 by linarith
  have lo: "2 ^ (n + 8) \<le> M" using a_le_n pos unfolding M_def p8 by linarith
  have "bitlen M \<le> int n + 9"
    using hi by (simp add: bitlen_le_iff_power nat_add_distrib add.commute)
  moreover have "int n + 9 \<le> bitlen M"
    using lo by (simp add: bitlen_ge_iff_power nat_add_distrib add.commute)
  ultimately have bl: "bitlen \<bar>M\<bar> - 53 = int k" using M_pos k(2) by simp
  have split: "M = 2 ^ k * (360 * 2 ^ 44 - 1) + (2 ^ k - a)"
    unfolding M_def pw by (simp add: algebra_simps)
  have hp: "0 < (2::int) ^ (k - 1)" by simp
  have r0: "0 \<le> 2 ^ k - a" using a_le two hp by linarith
  have r1: "2 ^ k - a < 2 ^ k" using a(1) by simp
  have q: "\<bar>M\<bar> div 2 ^ k = 360 * 2 ^ 44 - 1"
    using M_pos int_div_pos_eq [OF split r0 r1] by simp
  have r: "\<bar>M\<bar> mod 2 ^ k = 2 ^ k - a"
    using M_pos int_mod_pos_eq [OF split r0 r1] by simp
  have half: "(2::int) ^ nat (int k - 1) = 2 ^ (k - 1)"
    using k(1) by (simp add: nat_diff_distrib')
  have up: "2 ^ (k - 1) < 2 ^ k - a \<or> (2 ^ k - a = 2 ^ (k - 1) \<and> odd (360 * 2 ^ 44 - 1 :: int))"
  proof -
    have "odd (360 * 2 ^ 44 - 1 :: int)" by simp
    moreover have "2 ^ (k - 1) \<le> 2 ^ k - a" using a_le two hp by linarith
    ultimately show ?thesis by linarith
  qed
  have "round_ties_to_even M (- int n) = Finite (sgn M * (360 * 2 ^ 44 - 1 + 1)) (- int n + int k)"
    unfolding round_ties_to_even_def Let_def bl using k(1) up
    by (simp only: nat_int q r half) simp
  also have "\<dots> = Finite (360 * 2 ^ 44) (- 44)"
    using M_pos k(2) by simp
  finally show ?thesis unfolding M_def .
qed

lemma round_within:
  fixes M A B :: int and n :: nat
  assumes lo: "A * 2 ^ n \<le> M" and hi: "M \<le> B * 2 ^ n" and A: "0 < A" and B: "B < 2 ^ 53"
  shows "\<exists>m' e'. round_ties_to_even M (- int n) = Finite m' e' \<and>
           real_of_int A \<le> valof (Finite m' e') \<and> valof (Finite m' e') \<le> real_of_int B"
proof -
  have Mpos: "0 < M"
  proof -
    have "0 < A * 2 ^ n" using A by simp
    with lo show ?thesis by linarith
  qed
  have scale: "real_of_int a \<le> real_of_int c * 2 powi (int j - int n)"
    if "a * 2 ^ (n - j) \<le> c" "j \<le> n" for a c :: int and j :: nat
  proof -
    have p: "(2::real) powi (int j - int n) * 2 ^ (n - j) = 1"
    proof -
      have "(2::real) powi (int j - int n) * 2 powi int (n - j) = 2 powi (int j - int n + int (n - j))"
        by (rule power_int_add [symmetric]) simp
      also have "\<dots> = 1" using that(2) by simp
      finally show ?thesis by simp
    qed
    from that(1) have "real_of_int (a * 2 ^ (n - j)) \<le> real_of_int c" by (simp only: of_int_le_iff)
    then have "real_of_int (a * 2 ^ (n - j)) * 2 powi (int j - int n) \<le> real_of_int c * 2 powi (int j - int n)"
      by (intro mult_right_mono) simp_all
    moreover have "real_of_int (a * 2 ^ (n - j)) * 2 powi (int j - int n)
        = real_of_int a * (2 powi (int j - int n) * 2 ^ (n - j))"
      by simp
    ultimately show ?thesis by (simp only: p mult_1_right)
  qed
  have scale': "real_of_int c * 2 powi (int j - int n) \<le> real_of_int b"
    if "c \<le> b * 2 ^ (n - j)" "j \<le> n" for b c :: int and j :: nat
  proof -
    have p: "(2::real) powi (int j - int n) * 2 ^ (n - j) = 1"
    proof -
      have "(2::real) powi (int j - int n) * 2 powi int (n - j) = 2 powi (int j - int n + int (n - j))"
        by (rule power_int_add [symmetric]) simp
      also have "\<dots> = 1" using that(2) by simp
      finally show ?thesis by simp
    qed
    from that(1) have "real_of_int c \<le> real_of_int (b * 2 ^ (n - j))" by (simp only: of_int_le_iff)
    then have "real_of_int c * 2 powi (int j - int n) \<le> real_of_int (b * 2 ^ (n - j)) * 2 powi (int j - int n)"
      by (intro mult_right_mono) simp_all
    moreover have "real_of_int (b * 2 ^ (n - j)) * 2 powi (int j - int n)
        = real_of_int b * (2 powi (int j - int n) * 2 ^ (n - j))"
      by simp
    ultimately show ?thesis by (simp only: p mult_1_right)
  qed
  show ?thesis
  proof (cases "bitlen \<bar>M\<bar> - 53 \<le> 0")
    case True
    then have "round_ties_to_even M (- int n) = Finite M (- int n)"
      by (simp add: round_ties_to_even_def)
    moreover have "real_of_int A \<le> valof (Finite M (- int n))"
      using scale [of A 0 M] lo by simp
    moreover have "valof (Finite M (- int n)) \<le> real_of_int B"
      using scale' [of M B 0] hi by simp
    ultimately show ?thesis by blast
  next
    case False
    define k where "k = nat (bitlen \<bar>M\<bar> - 53)"
    from False have k: "0 < k" "bitlen \<bar>M\<bar> - 53 = int k" by (simp_all add: k_def)
    have "M < 2 ^ 53 * 2 ^ n"
    proof -
      have "B * 2 ^ n < 2 ^ 53 * (2 ^ n :: int)" using B by (intro mult_strict_right_mono) simp_all
      with hi show ?thesis by linarith
    qed
    then have "M < 2 ^ (53 + n)" by (simp only: power_add)
    then have "bitlen M \<le> int (53 + n)" by (simp only: bitlen_le_iff_power nat_int) simp
    with k(2) Mpos have kn: "k \<le> n" by simp
    define j where "j = n - k"
    have pw: "(2::int) ^ n = 2 ^ j * 2 ^ k" using kn by (simp add: j_def power_add [symmetric])
    define q where "q = M div 2 ^ k"
    define r where "r = M mod 2 ^ k"
    define q' where "q' = (if 2 ^ nat (int k - 1) < r \<or> (r = 2 ^ nat (int k - 1) \<and> odd q) then q + 1 else q)"
    have Mqr: "M = q * 2 ^ k + r" by (simp only: q_def r_def div_mult_mod_eq)
    have r: "0 \<le> r" "r < 2 ^ k" by (simp_all add: r_def)
    have rnd: "round_ties_to_even M (- int n) = Finite q' (- int n + int k)"
      unfolding round_ties_to_even_def Let_def k(2) using k(1) Mpos
      by (simp add: q_def r_def q'_def)
    have qlo: "A * 2 ^ j \<le> q"
    proof -
      have "A * 2 ^ j * 2 ^ k \<le> M" using lo by (simp only: pw mult.assoc)
      then have "(A * 2 ^ j * 2 ^ k) div 2 ^ k \<le> M div 2 ^ k" by (intro zdiv_mono1) simp_all
      then show ?thesis by (simp add: q_def)
    qed
    have q'lo: "A * 2 ^ j \<le> q'" using qlo by (simp add: q'_def)
    have q'hi: "q' \<le> B * 2 ^ j"
    proof -
      have Mhi: "M \<le> B * 2 ^ j * 2 ^ k" using hi by (simp only: pw mult.assoc)
      then have "M div 2 ^ k \<le> (B * 2 ^ j * 2 ^ k) div 2 ^ k" by (intro zdiv_mono1) simp_all
      then have qhi: "q \<le> B * 2 ^ j" by (simp add: q_def)
      show ?thesis
      proof (cases "q = B * 2 ^ j")
        case True
        with Mqr Mhi r(1) have "r = 0" by simp
        moreover have "(0::int) < 2 ^ nat (int k - 1)" by simp
        ultimately have "q' = q" by (simp add: q'_def)
        with qhi show ?thesis by simp
      next
        case False
        with qhi have "q + 1 \<le> B * 2 ^ j" by simp
        then show ?thesis by (simp add: q'_def)
      qed
    qed
    have e: "- int n + int k = int k - int n" by simp
    have "real_of_int A \<le> valof (Finite q' (- int n + int k))"
      unfolding e valof.simps using q'lo kn by (intro scale) (simp_all add: j_def)
    moreover have "valof (Finite q' (- int n + int k)) \<le> real_of_int B"
      unfolding e valof.simps using q'hi kn by (intro scale') (simp_all add: j_def)
    ultimately show ?thesis using rnd by blast
  qed
qed

lemma normalize64_range:
  assumes lo: "- 180 \<le> valof d" and hi: "valof d \<le> 180"
  shows "0 \<le> valof (normalize64 d) \<and> valof (normalize64 d) \<le> 360"
proof -
  obtain m e where d: "d = Finite m e" by (cases d)
  have lt: "less64 d (Finite 0 0) \<longleftrightarrow> m < 0"
    unfolding d by (simp add: Let_def mult_less_0_iff)
  show ?thesis
  proof (cases "m < 0")
    case False
    then have "normalize64 d = d" using lt by (simp add: normalize64_def)
    moreover from False have "0 \<le> valof d" unfolding d by simp
    ultimately show ?thesis using hi by simp
  next
    case True
    define n where "n = nat (- min e 0)"
    define M where "M = m * 2 ^ nat (e - min e 0) + 360 * 2 ^ n"
    have sum: "add64 d (Finite 360 0) = round_ties_to_even M (- int n)"
      unfolding d by (simp add: Let_def M_def n_def)
    have v: "valof d * 2 ^ n = real_of_int (m * 2 ^ nat (e - min e 0))"
    proof (cases "e < 0")
      case True
      then have "(2::real) powi e * 2 ^ n = 2 powi (e + int n)"
        by (simp add: power_int_add)
      also have "\<dots> = 1" using True by (simp add: n_def)
      finally have "(2::real) powi e * 2 ^ n = 1" .
      then have "valof d * 2 ^ n = real_of_int m" unfolding d by (simp add: mult.assoc)
      with True show ?thesis by simp
    next
      case False
      then have "n = 0" "(2::real) powi e = 2 ^ nat e" by (simp_all add: n_def power_int_def)
      with False show ?thesis unfolding d by simp
    qed
    have "- 180 * 2 ^ n \<le> valof d * 2 ^ n" using lo by (intro mult_right_mono) simp_all
    then have "real_of_int (- 180 * 2 ^ n) \<le> real_of_int (m * 2 ^ nat (e - min e 0))"
      unfolding v by simp
    then have mlo: "- 180 * 2 ^ n \<le> m * 2 ^ nat (e - min e 0)" by (simp only: of_int_le_iff)
    have mhi: "m * 2 ^ nat (e - min e 0) < 0" using True by (simp add: mult_less_0_iff)
    have "180 * 2 ^ n \<le> M" using mlo unfolding M_def by linarith
    moreover have "M \<le> 360 * 2 ^ n" using mhi unfolding M_def by linarith
    ultimately obtain m' e' where "round_ties_to_even M (- int n) = Finite m' e'"
      "real_of_int 180 \<le> valof (Finite m' e')" "valof (Finite m' e') \<le> real_of_int 360"
      using round_within [of 180 n M 360] by auto
    then show ?thesis using True lt sum by (simp add: normalize64_def)
  qed
qed

lemma binary64_grid:
  assumes b: "is_binary64 (Finite m e)" and lo: "2 ^ k \<le> valof (Finite m e)"
  shows "\<exists>j. valof (Finite m e) = real_of_int j * 2 powi (int k - 52)"
proof -
  have c: "0 < (2::real) powi e" by simp
  from b have "real_of_int m < 2 ^ 53" by (simp add: abs_less_iff)
  note m53 = this
  have "0 < real_of_int m * 2 powi e"
  proof -
    have "(0::real) < 2 ^ k" by simp
    with lo show ?thesis unfolding valof.simps by linarith
  qed
  then have mpos: "0 < m" using c by (simp add: zero_less_mult_iff)
  have e: "int k - 52 \<le> e"
  proof (rule ccontr)
    assume "\<not> int k - 52 \<le> e"
    then have "e + 53 \<le> int k" by simp
    then have "(2::real) powi (e + 53) \<le> 2 powi int k" by (intro power_int_increasing) simp_all
    then have le: "(2::real) ^ 53 * 2 powi e \<le> 2 ^ k" by (simp add: power_int_add mult.commute)
    from m53 have "real_of_int m * 2 powi e < 2 ^ 53 * 2 powi e"
      using c by (intro mult_strict_right_mono)
    with le lo show False unfolding valof.simps by linarith
  qed
  define s where "s = nat (e - (int k - 52))"
  have "(2::real) powi e = 2 powi (int s + (int k - 52))" using e by (simp add: s_def)
  also have "\<dots> = 2 ^ s * 2 powi (int k - 52)" by (simp add: power_int_add)
  finally have "valof (Finite m e) = real_of_int (m * 2 ^ s) * 2 powi (int k - 52)" by simp
  then show ?thesis by blast
qed

lemma binary64_gap:
  assumes b: "is_binary64 (Finite m e)" and k: "k \<le> 52" and T: "2 ^ k < T"
    and lt: "valof (Finite m e) < real_of_int T"
  shows "valof (Finite m e) \<le> real_of_int T - 2 powi (int k - 52)"
proof -
  define u :: real where "u = 2 powi (int k - 52)"
  have u: "0 < u" by (simp add: u_def)
  define s where "s = 52 - k"
  define J0 where "J0 = T * 2 ^ s"
  define P0 :: int where "P0 = 2 ^ k * 2 ^ s"
  have "(2::real) powi int s * u = 2 powi (int s + (int k - 52))"
    unfolding u_def by (simp add: power_int_add)
  also have "\<dots> = 1" using k by (simp add: s_def)
  finally have su: "2 ^ s * u = 1" by simp
  have Tu: "real_of_int T = real_of_int J0 * u"
  proof -
    have "real_of_int J0 * u = real_of_int T * (2 ^ s * u)" by (simp add: J0_def)
    then show ?thesis by (simp only: su mult_1_right)
  qed
  have pu: "(2::real) ^ k = real_of_int P0 * u"
  proof -
    have "real_of_int P0 * u = 2 ^ k * (2 ^ s * u)" by (simp add: P0_def)
    then show ?thesis by (simp only: su mult_1_right)
  qed
  have below: "real_of_int j * u \<le> real_of_int T - u" if "j < J0" for j
  proof -
    from that have "j \<le> J0 - 1" by linarith
    then have "real_of_int j \<le> real_of_int (J0 - 1)" by (simp only: of_int_le_iff)
    then have "real_of_int j * u \<le> real_of_int (J0 - 1) * u"
      using u by (intro mult_right_mono) simp_all
    also have "\<dots> = real_of_int J0 * u - u" by (simp add: left_diff_distrib)
    finally show ?thesis by (simp only: Tu)
  qed
  show ?thesis
  proof (cases "2 ^ k \<le> valof (Finite m e)")
    case True
    from binary64_grid [OF b True] obtain j where j: "valof (Finite m e) = real_of_int j * u"
      unfolding u_def by blast
    from lt have "real_of_int j * u < real_of_int J0 * u" by (simp only: j Tu)
    then have "real_of_int j < real_of_int J0" using u by (simp only: mult_less_cancel_right_pos)
    then have "j < J0" by (simp only: of_int_less_iff)
    from below [OF this] show ?thesis by (simp only: j u_def)
  next
    case False
    have "P0 < J0"
      unfolding P0_def J0_def using T by (intro mult_strict_right_mono) simp_all
    from below [OF this] have "2 ^ k \<le> real_of_int T - u" by (simp only: pu)
    with False show ?thesis unfolding u_def by linarith
  qed
qed

lemma nearest64D:
  "nearest64 t q \<Longrightarrow> is_binary64 d \<Longrightarrow> \<bar>valof q - t\<bar> \<le> \<bar>valof d - t\<bar>"
  by (simp add: nearest64_def)

lemma quotient_below:
  fixes n :: int
  assumes L: "is_binary64 L" and k: "3 \<le> k" "k \<le> 52"
    and lo: "2 ^ k < 30 * n" and hi: "30 * n < 2 ^ (k + 1)"
    and lt: "valof L < 30 * real_of_int n"
    and q: "nearest64 (valof L / 30) q"
  shows "valof q < real_of_int n"
proof (rule ccontr)
  assume "\<not> valof q < real_of_int n"
  then have qn: "real_of_int n \<le> valof q" by simp
  define u :: real where "u = 2 powi (int k - 52)"
  define w :: real where "w = 2 powi (int k - 56)"
  define t where "t = valof L / 30"
  have w: "0 < w" by (simp add: w_def)
  have "u = 2 powi (4 + (int k - 56))" by (simp add: u_def)
  also have "\<dots> = 2 powi 4 * w" unfolding w_def by (rule power_int_add) simp
  finally have uw: "u = 16 * w" by simp
  obtain m e where Lme: "L = Finite m e" by (cases L)
  have "valof L \<le> real_of_int (30 * n) - 2 powi (int k - 52)"
    using L lt unfolding Lme by (intro binary64_gap k lo) simp_all
  then have t_le: "t \<le> real_of_int n - u / 30" by (simp add: t_def u_def)
  define s where "s = 56 - k"
  define d where "d = Finite (n * 2 ^ s - 1) (int k - 56)"
  have sw: "2 ^ s * w = 1"
  proof -
    have "(2::real) powi int s * w = 2 powi (int s + (int k - 56))"
      unfolding w_def by (simp add: power_int_add)
    also have "\<dots> = 1" using k by (simp add: s_def)
    finally show ?thesis by simp
  qed
  have vd: "valof d = real_of_int n - w"
  proof -
    have "valof d = real_of_int n * (2 ^ s * w) - w"
      by (simp add: d_def w_def left_diff_distrib)
    then show ?thesis by (simp only: sw mult_1_right)
  qed
  have npos: "0 < n"
  proof -
    have "(0::int) < 2 ^ k" by simp
    with lo show ?thesis by linarith
  qed
  have bd: "is_binary64 d"
  proof -
    have "(2::int) ^ (k + 1) * 2 ^ s = 2 ^ 57" using k by (simp add: s_def power_add [symmetric])
    moreover have "30 * n * 2 ^ s < 2 ^ (k + 1) * 2 ^ s"
      using hi by (intro mult_strict_right_mono) simp_all
    ultimately have "30 * (n * 2 ^ s) < 2 ^ 57" by (simp only: mult.assoc)
    then have "n * 2 ^ s < 2 ^ 53" by simp
    moreover have "0 < n * 2 ^ s" using npos by simp
    ultimately show ?thesis using k by (simp add: d_def abs_less_iff)
  qed
  from q bd have near: "\<bar>valof q - t\<bar> \<le> \<bar>valof d - t\<bar>"
    unfolding t_def by (rule nearest64D)
  from near qn t_le w show False unfolding vd uw by linarith
qed

lemma binary64_quotient_index:
  assumes L: "is_binary64 L" and range: "0 \<le> valof L" "valof L < 360"
    and q: "nearest64 (valof L / 30) q"
  shows "\<lfloor>valof q\<rfloor> = \<lfloor>valof L / 30\<rfloor>"
proof -
  define t where "t = valof L / 30"
  define i where "i = \<lfloor>t\<rfloor>"
  have it: "real_of_int i \<le> t" "t < real_of_int i + 1" by (simp_all add: i_def)
  have i: "0 \<le> i" "i \<le> 11"
    using range by (simp_all add: i_def t_def floor_less_iff)
  have "is_binary64 (Finite i 0)" using i by (simp add: abs_less_iff)
  with q have "\<bar>valof q - t\<bar> \<le> \<bar>valof (Finite i 0) - t\<bar>"
    unfolding t_def by (rule nearest64D)
  with it(1) have lower: "real_of_int i \<le> valof q" by simp
  define n where "n = i + 1"
  have lt: "valof L < 30 * real_of_int n" using it(2) by (simp add: t_def n_def)
  from i have "n \<in> {1, 2, 3, 4, 5, 6, 7, 8, 9, 10, 11, 12}" by (simp add: n_def; presburger)
  then have "\<exists>k. 3 \<le> k \<and> k \<le> 52 \<and> 2 ^ k < 30 * n \<and> 30 * n < 2 ^ (k + 1)"
  proof (elim insertE emptyE)
    assume "n = 1" then show ?thesis by (intro exI [of _ 4]) simp
  next
    assume "n = 2" then show ?thesis by (intro exI [of _ 5]) simp
  next
    assume "n = 3" then show ?thesis by (intro exI [of _ 6]) simp
  next
    assume "n = 4" then show ?thesis by (intro exI [of _ 6]) simp
  next
    assume "n = 5" then show ?thesis by (intro exI [of _ 7]) simp
  next
    assume "n = 6" then show ?thesis by (intro exI [of _ 7]) simp
  next
    assume "n = 7" then show ?thesis by (intro exI [of _ 7]) simp
  next
    assume "n = 8" then show ?thesis by (intro exI [of _ 7]) simp
  next
    assume "n = 9" then show ?thesis by (intro exI [of _ 8]) simp
  next
    assume "n = 10" then show ?thesis by (intro exI [of _ 8]) simp
  next
    assume "n = 11" then show ?thesis by (intro exI [of _ 8]) simp
  next
    assume "n = 12" then show ?thesis by (intro exI [of _ 8]) simp
  qed
  then obtain k where "3 \<le> k" "k \<le> 52" "2 ^ k < 30 * n" "30 * n < 2 ^ (k + 1)" by blast
  from quotient_below [OF L this lt q] have "valof q < real_of_int i + 1" by (simp add: n_def)
  with lower have "\<lfloor>valof q\<rfloor> = i" by (intro floor_unique)
  then show ?thesis by (simp add: i_def t_def)
qed

section \<open>The claims\<close>

text \<open>
  Claim C1 says that when the provider throws for one body, the other six positions are
  still computed and returned. The component has no handler around the lookup: run with
  a provider that throws for Mars only, it ends with that exception and returns no
  positions (the third theorem below). What holds instead (C1 as amended): positions are
  returned exactly when the lookup succeeds for all seven bodies, and an exception for
  any one body leaves the whole projection.
\<close>

theorem provider_failure_aborts:
  "((\<exists>ps. planetaryPositions tz g dob tob = Inr ps) \<longleftrightarrow>
      (\<forall>p\<in>set PLANETS. \<exists>v. g (key p) (dateObj tz dob tob) True = Inr v)) \<and>
   ((\<exists>p\<in>set PLANETS. \<exists>e. g (key p) (dateObj tz dob tob) True = Inl e) \<longrightarrow>
      (\<exists>e. planetaryPositions tz g dob tob = Inl e))"
proof (intro conjI impI)
  show ret: "(\<exists>ps. planetaryPositions tz g dob tob = Inr ps) \<longleftrightarrow>
      (\<forall>p\<in>set PLANETS. \<exists>v. g (key p) (dateObj tz dob tob) True = Inr v)"
    by (rule planetaryPositions_returns_iff)
  assume "\<exists>p\<in>set PLANETS. \<exists>e. g (key p) (dateObj tz dob tob) True = Inl e"
  with ret have "\<not> (\<exists>ps. planetaryPositions tz g dob tob = Inr ps)" by auto
  then show "\<exists>e. planetaryPositions tz g dob tob = Inl e"
    by (cases "planetaryPositions tz g dob tob") auto
qed

theorem provider_failure_aborts_witness:
  "(\<exists>p\<in>set PLANETS. \<exists>e. failing_provider (key p) (dateObj utc_zone sample_dob sample_tob) True = Inl e) \<and>
   (\<exists>e. planetaryPositions utc_zone failing_provider sample_dob sample_tob = Inl e) \<and>
   \<not> (\<exists>ps. planetaryPositions utc_zone failing_provider sample_dob sample_tob = Inr ps)"
proof -
  have h: "\<exists>p\<in>set PLANETS. \<exists>e. failing_provider (key p) (dateObj utc_zone sample_dob sample_tob) True = Inl e"
    by (simp add: PLANETS_def failing_provider_def)
  with provider_failure_aborts [of utc_zone failing_provider sample_dob sample_tob] show ?thesis
    by fastforce
qed

theorem one_failure_loses_all_positions:
  "failing_provider Sun (dateObj utc_zone sample_dob sample_tob) True = Inr (sample_vector Sun) \<and>
   failing_provider Moon (dateObj utc_zone sample_dob sample_tob) True = Inr (sample_vector Moon) \<and>
   failing_provider Mercury (dateObj utc_zone sample_dob sample_tob) True = Inr (sample_vector Mercury) \<and>
   failing_provider Venus (dateObj utc_zone sample_dob sample_tob) True = Inr (sample_vector Venus) \<and>
   failing_provider Mars (dateObj utc_zone sample_dob sample_tob) True = Inl (Thrown ''no position'') \<and>
   failing_provider Jupiter (dateObj utc_zone sample_dob sample_tob) True = Inr (sample_vector Jupiter) \<and>
   failing_provider Saturn (dateObj utc_zone sample_dob sample_tob) True = Inr (sample_vector Saturn) \<and>
   planetaryPositions utc_zone failing_provider sample_dob sample_tob = Inl (Thrown ''no position'')"
  by (simp add: planetaryPositions_def PLANETS_def failing_provider_def)

text \<open>
  Claim C2 says that every longitude lies in [0, 360): the raw angle in degrees, with
  360 added when negative, is at least 0 and strictly less than 360. In exact arithmetic
  that is \<open>normalize_exact_range\<close> above. The addition is a binary64 addition,
  though, and every negative raw angle of magnitude at most \<open>2 ^ - 45\<close> degrees (a
  direction just below the positive x axis) is sent to 360 itself: the exact sum is
  nearer to 360 than to the binary64 value before it. The index of the sign is then 12
  and the name of the sign is empty. (The binary64 longitudes stay within [0, 360]:
  \<open>normalize64_range\<close>.)
\<close>

theorem tiny_negative_angle_becomes_360:
  assumes neg: "valof d < 0" and small: "- (2 powi - 45) \<le> valof d"
  shows "normalize64 d = Finite (360 * 2 ^ 44) (- 44) \<and> valof (normalize64 d) = 360"
proof -
  obtain m e where d: "d = Finite m e" by (cases d)
  have c: "0 < (2::real) powi e" by simp
  from neg have m: "m < 0" unfolding d using c by (simp add: mult_less_0_iff)
  define a where "a = - m"
  from m have a: "0 < a" "m = - a" by (simp_all add: a_def)
  from small have bound: "real_of_int a * 2 powi e \<le> 2 powi - 45"
    unfolding d a(2) by simp
  have e: "e \<le> - 45"
  proof (rule ccontr)
    assume "\<not> e \<le> - 45"
    then have "(2::real) powi - 44 \<le> 2 powi e" by (intro power_int_increasing) simp_all
    moreover have "1 * 2 powi e \<le> real_of_int a * 2 powi e"
      using a(1) by (intro mult_right_mono) simp_all
    moreover have "(2::real) powi - 45 < 2 powi - 44"
      by (intro power_int_strict_increasing) simp_all
    ultimately show False using bound by linarith
  qed
  define n where "n = nat (- e)"
  from e have n: "45 \<le> n" "e = - int n" by (simp_all add: n_def)
  have "real_of_int a \<le> 2 ^ (n - 45)"
  proof -
    define P :: real where "P = 2 ^ 45"
    define Q :: real where "Q = 2 ^ (n - 45)"
    have P: "0 < P" and Q: "0 < Q" by (simp_all add: P_def Q_def)
    have "(2::real) ^ n = 2 ^ (45 + (n - 45))" using n(1) by simp
    then have s: "(2::real) ^ n = P * Q" unfolding P_def Q_def by (simp only: power_add)
    have "(2::real) powi e = 1 / 2 ^ n" unfolding n(2) by (simp add: power_int_minus field_simps)
    then have p: "(2::real) powi e = 1 / (P * Q)" by (simp only: s)
    have "(2::real) powi - 45 = 1 / P" unfolding P_def by (simp add: power_int_minus field_simps)
    with bound have "real_of_int a * (1 / (P * Q)) \<le> 1 / P" by (simp only: p)
    then have "real_of_int a \<le> Q" using P Q by (simp add: field_simps)
    then show ?thesis by (simp only: Q_def)
  qed
  then have a_le: "a \<le> 2 ^ (n - 45)"
    by (metis of_int_le_iff of_int_numeral of_int_power)
  have lt: "less64 d (Finite 0 0)" unfolding d using m e by (simp add: min_def)
  have "add64 d (Finite 360 0) = round_ties_to_even (360 * 2 ^ n - a) (- int n)"
    unfolding d using e by (simp add: min_def n_def a_def add.commute)
  also have "\<dots> = Finite (360 * 2 ^ 44) (- 44)"
    using n(1) a(1) a_le by (rule round_just_below_360)
  finally have "normalize64 d = Finite (360 * 2 ^ 44) (- 44)"
    using lt by (simp add: normalize64_def)
  then show ?thesis by (simp add: power_int_minus)
qed

theorem tiny_negative_angle_becomes_360_witness:
  "is_binary64 (Finite (- 1) (- 60)) \<and>
   - 180 < valof (Finite (- 1) (- 60)) \<and> valof (Finite (- 1) (- 60)) < 0 \<and>
   normalize (valof (Finite (- 1) (- 60))) < 360 \<and>
   normalize64 (Finite (- 1) (- 60)) = Finite 6333186975989760 (- 44) \<and>
   valof (normalize64 (Finite (- 1) (- 60))) = 360 \<and>
   signIndex 360 = 12 \<and> signName 360 = ''''"
proof -
  have neg: "valof (Finite (- 1) (- 60)) < 0"
    and small: "- (2 powi - 45) \<le> valof (Finite (- 1) (- 60))"
    and more: "- 180 < valof (Finite (- 1) (- 60))"
    by (simp_all add: power_int_minus)
  have exact: "normalize (valof (Finite (- 1) (- 60))) < 360"
    by (simp add: normalize_def power_int_minus)
  have idx: "signIndex 360 = 12" by (simp add: signIndex_def)
  then have nm: "signName 360 = ''''"
    by (simp add: signName_def js_index_def or_empty_def length_ZODIAC_SIGNS)
  from tiny_negative_angle_becomes_360 [OF neg small] neg more exact idx nm
  show ?thesis by simp
qed

text \<open>
  Claim C3: for a longitude \<open>L\<close> in [0, 360) the sign is entry \<open>\<lfloor>L / 30\<rfloor>\<close> of
  the table and its 30 degrees hold \<open>L\<close>, lower bound included, upper bound excluded;
  0 is in the first sign, 30 in the second, 359.999 in the last. The code takes the
  index from a binary64 division; for a binary64 longitude in [0, 360) the integer part of
  the rounded quotient is that of the exact one, so the sign is the same.
\<close>

theorem sector_half_open:
  "(0 \<le> L \<and> L < 360 \<longrightarrow>
     (\<exists>s. js_index ZODIAC_SIGNS \<lfloor>L / 30\<rfloor> = Some s \<and> signName L = zodiac_sign.name s \<and>
          start s \<le> L \<and> L < start s + 30)) \<and>
   (is_binary64 B \<and> 0 \<le> valof B \<and> valof B < 360 \<and> nearest64 (valof B / 30) Q \<longrightarrow>
     \<lfloor>valof Q\<rfloor> = \<lfloor>valof B / 30\<rfloor>) \<and>
   signName 0 = ''Aries'' \<and> signName 30 = ''Taurus'' \<and> signName 359.999 = ''Pisces''"
proof (intro conjI impI)
  assume L: "0 \<le> L \<and> L < 360"
  then have idx: "0 \<le> signIndex L" "signIndex L < 12"
    using signIndex_in_table by auto
  define i where "i = nat (signIndex L)"
  from idx have i: "i < 12" "signIndex L = int i" by (simp_all add: i_def)
  let ?s = "ZODIAC_SIGNS ! i"
  have look: "js_index ZODIAC_SIGNS (signIndex L) = Some ?s"
    using i by (simp add: js_index_def length_ZODIAC_SIGNS)
  from sign_table [OF i(1)] have tab: "start ?s = 30 * real i" "zodiac_sign.name ?s \<noteq> ''''"
    by simp_all
  have nm: "signName L = zodiac_sign.name ?s"
    using look tab(2) by (simp add: signName_def or_empty_def)
  from signIndex_bounds [of L] i(2) tab(1) have "start ?s \<le> L" "L < start ?s + 30"
    by simp_all
  with look nm show "\<exists>s. js_index ZODIAC_SIGNS \<lfloor>L / 30\<rfloor> = Some s \<and>
      signName L = zodiac_sign.name s \<and> start s \<le> L \<and> L < start s + 30"
    unfolding signIndex_def by blast
next
  assume "is_binary64 B \<and> 0 \<le> valof B \<and> valof B < 360 \<and> nearest64 (valof B / 30) Q"
  then show "\<lfloor>valof Q\<rfloor> = \<lfloor>valof B / 30\<rfloor>"
    by (intro binary64_quotient_index) simp_all
next
  show "signName 0 = ''Aries''"
    by (simp add: signName_def signIndex_def js_index_def or_empty_def ZODIAC_SIGNS_def)
next
  show "signName 30 = ''Taurus''"
    by (simp add: signName_def signIndex_def js_index_def or_empty_def ZODIAC_SIGNS_def)
next
  have "\<lfloor>(359.999 :: real) / 30\<rfloor> = 11" by (simp add: floor_eq_iff)
  then show "signName 359.999 = ''Pisces''"
    by (simp add: signName_def signIndex_def js_index_def or_empty_def ZODIAC_SIGNS_def)
qed

theorem sector_half_open_witness:
  "(\<exists>s. js_index ZODIAC_SIGNS \<lfloor>(45 :: real) / 30\<rfloor> = Some s \<and>
     signName 45 = zodiac_sign.name s \<and> start s \<le> 45 \<and> 45 < start s + 30) \<and>
   nearest64 (valof (Finite 45 0) / 30) (Finite 3 (- 1)) \<and>
   \<lfloor>valof (Finite 3 (- 1))\<rfloor> = \<lfloor>valof (Finite 45 0) / 30\<rfloor>"
proof -
  have n: "nearest64 (valof (Finite 45 0) / 30) (Finite 3 (- 1))"
    by (simp add: nearest64_def)
  with sector_half_open [of 45 "Finite 45 0" "Finite 3 (- 1)"] show ?thesis by simp
qed




text \<open>
  Claim C6: the point for \<open>d\<close> degrees at radius \<open>r\<close> is
  \<open>(center + r * cos (- d * pi / 180), center + r * sin (- d * pi / 180))\<close>, for the
  marks of the signs and the markers of the bodies alike. 0 degrees is at the right of
  the centre, and going from \<open>d\<close> to a larger angle less than 180 degrees away is a
  clockwise turn about the centre in the plane of the two coordinates (the determinant of
  the two offsets is negative).
\<close>

theorem angle_to_point:
  "cx (getCoordinates d r) = center + r * cos (- d * pi / 180) \<and>
   cy (getCoordinates d r) = center + r * sin (- d * pi / 180) \<and>
   center = 160 \<and>
   getCoordinates 0 r = \<lparr>cx = center + r, cy = center\<rparr> \<and>
   getCoordinates 90 r = \<lparr>cx = center, cy = center - r\<rparr> \<and>
   (0 < r \<and> 0 < d2 - d \<and> d2 - d < 180 \<longrightarrow>
      (cx (getCoordinates d r) - center) * (cy (getCoordinates d2 r) - center)
        - (cy (getCoordinates d r) - center) * (cx (getCoordinates d2 r) - center) < 0) \<and>
   (i < 12 \<longrightarrow> signMarks ! i =
      (getCoordinates (start (ZODIAC_SIGNS ! i)) radius,
       getCoordinates (start (ZODIAC_SIGNS ! i) + 15) (radius - 20))) \<and>
   (i < length ps \<longrightarrow>
      planetMarks ps ! i = getCoordinates (degree (ps ! i)) (planetRadius i))"
proof (intro conjI impI)
  show "cx (getCoordinates d r) = center + r * cos (- d * pi / 180)"
    and "cy (getCoordinates d r) = center + r * sin (- d * pi / 180)"
    by (simp_all add: getCoordinates_def)
  show "center = 160" by (simp add: center_def size_svg_def)
  show "getCoordinates 0 r = \<lparr>cx = center + r, cy = center\<rparr>"
    by (simp add: getCoordinates_def)
  show "getCoordinates 90 r = \<lparr>cx = center, cy = center - r\<rparr>"
    by (simp add: getCoordinates_def)
  show "(cx (getCoordinates d r) - center) * (cy (getCoordinates d2 r) - center)
        - (cy (getCoordinates d r) - center) * (cx (getCoordinates d2 r) - center) < 0"
    if "0 < r \<and> 0 < d2 - d \<and> d2 - d < 180"
  proof -
    from that have "0 < r" "0 < d2 - d" "d2 - d < 180" by simp_all
    then show ?thesis by (rule clockwise_turn)
  qed
  show "signMarks ! i =
      (getCoordinates (start (ZODIAC_SIGNS ! i)) radius,
       getCoordinates (start (ZODIAC_SIGNS ! i) + 15) (radius - 20))" if "i < 12"
    using that by (rule signMarks_nth)
  show "planetMarks ps ! i = getCoordinates (degree (ps ! i)) (planetRadius i)"
    if "i < length ps"
    using that by (rule planetMarks_nth)
qed

theorem angle_to_point_witness:
  "(cx (getCoordinates 0 90) - center) * (cy (getCoordinates 90 90) - center)
     - (cy (getCoordinates 0 90) - center) * (cx (getCoordinates 90 90) - center) < 0 \<and>
   signMarks ! 1 = (getCoordinates 30 150, getCoordinates 45 130) \<and>
   planetMarks [locate (PLANETS ! 0) (sample_vector Moon)] ! 0 = getCoordinates 90 90"
proof -
  have s: "start (ZODIAC_SIGNS ! Suc 0) = 30" "radius = 150"
    by (simp_all add: ZODIAC_SIGNS_def radius_def size_svg_def)
  have p: "degree (locate (PLANETS ! 0) (sample_vector Moon)) = 90" "planetRadius 0 = 90"
    by (simp_all add: locate_def Let_def planet.extend_def sample_vector_def atan2_def
        normalize_def planetRadius_def innerRadius_def radius_def size_svg_def)
  have "(cx (getCoordinates 0 90) - center) * (cy (getCoordinates 90 90) - center)
     - (cy (getCoordinates 0 90) - center) * (cx (getCoordinates 90 90) - center) < 0"
    using angle_to_point [where d = 0 and r = 90 and ?d2.0 = 90] by simp
  moreover have "signMarks ! 1 = (getCoordinates 30 150, getCoordinates 45 130)"
    using angle_to_point [where i = 1] s by simp
  moreover have "planetMarks [locate (PLANETS ! 0) (sample_vector Moon)] ! 0 =
      getCoordinates 90 90"
    using angle_to_point [where i = 0 and ps = "[locate (PLANETS ! 0) (sample_vector Moon)]"] p
    by simp
  ultimately show ?thesis by simp
qed

text \<open>
  Claim C7 says that the timestamp given to the provider has the year, month and day of
  the date of birth, the hour and minute of the time of birth, and 0 seconds. The three
  setters work in local time, and an hour that the local time zone skips is moved on: in a
  zone whose hour 2 of 2021-03-14 does not exist, a time of birth of 02:30 on that date
  gives the provider 03:30 (the third theorem below). What holds instead (C7 as amended):
  when the hour of the time of birth exists on the local day of the date of birth, the
  local fields of the timestamp are that day's year, month and day, that hour, the minute
  of the time of birth and 0 seconds (its milliseconds are those of the date of birth);
  and the projector returns a list exactly when the list holds, for each of the seven
  planets in order, what \<open>locate\<close> makes of the provider's answer at that timestamp.
\<close>

theorem combined_timestamp:
  assumes "hour_exists tz (Day (LocalTime tz dob)) (hour tz tob)"
  shows "getFullYear tz (dateObj tz dob tob) = getFullYear tz dob \<and>
         getMonth tz (dateObj tz dob tob) = getMonth tz dob \<and>
         getDate tz (dateObj tz dob tob) = getDate tz dob \<and>
         getHours tz (dateObj tz dob tob) = hour tz tob \<and>
         getMinutes tz (dateObj tz dob tob) = minute tz tob \<and>
         getSeconds tz (dateObj tz dob tob) = 0 \<and>
         getMilliseconds tz (dateObj tz dob tob) = getMilliseconds tz dob \<and>
         (planetaryPositions tz g dob tob = Inr ps \<longleftrightarrow>
            length ps = 7 \<and>
            (\<forall>i<7. \<exists>v. g (key (PLANETS ! i)) (dateObj tz dob tob) True = Inr v \<and>
                     ps ! i = locate (PLANETS ! i) v))"
proof -
  have h: "0 \<le> hour tz tob" "hour tz tob < 24" and m: "0 \<le> minute tz tob" "minute tz tob < 60"
    using field_ranges [of "LocalTime tz tob"]
    by (simp_all add: hour_def minute_def getHours_def getMinutes_def)
  have ms: "0 \<le> msFromTime (LocalTime tz dob)" "msFromTime (LocalTime tz dob) < 1000"
    using field_ranges [of "LocalTime tz dob"] by simp_all
  have s: "(0::int) \<le> 0" "(0::int) < 60" by simp_all
  note f = fields_of_wall_clock [OF h m s ms, of "Day (LocalTime tz dob)"]
  note l = local_dateObj [OF assms]
  have "Day (LocalTime tz (dateObj tz dob tob)) = Day (LocalTime tz dob)"
    unfolding l by (rule f(1))
  then have "getFullYear tz (dateObj tz dob tob) = getFullYear tz dob"
    and "getMonth tz (dateObj tz dob tob) = getMonth tz dob"
    and "getDate tz (dateObj tz dob tob) = getDate tz dob"
    by (simp_all add: getFullYear_def getMonth_def getDate_def YearFromTime_def
        MonthFromTime_def DateFromTime_def)
  moreover have "getHours tz (dateObj tz dob tob) = hour tz tob"
    unfolding getHours_def l by (rule f(2))
  moreover have "getMinutes tz (dateObj tz dob tob) = minute tz tob"
    unfolding getMinutes_def l by (rule f(3))
  moreover have "getSeconds tz (dateObj tz dob tob) = 0"
    unfolding getSeconds_def l by (rule f(4))
  moreover have "getMilliseconds tz (dateObj tz dob tob) = getMilliseconds tz dob"
    unfolding getMilliseconds_def l by (rule f(5))
  ultimately show ?thesis
    using planetaryPositions_Inr_nth [of tz g dob tob ps] by simp
qed

theorem combined_timestamp_witness:
  "getFullYear utc_zone sample_dob = 1990 \<and> getMonth utc_zone sample_dob = 5 \<and>
   getDate utc_zone sample_dob = 15 \<and> getMilliseconds utc_zone sample_dob = 250 \<and>
   hour utc_zone sample_tob = 14 \<and> minute utc_zone sample_tob = 30 \<and>
   getFullYear utc_zone (dateObj utc_zone sample_dob sample_tob) = 1990 \<and>
   getMonth utc_zone (dateObj utc_zone sample_dob sample_tob) = 5 \<and>
   getDate utc_zone (dateObj utc_zone sample_dob sample_tob) = 15 \<and>
   getHours utc_zone (dateObj utc_zone sample_dob sample_tob) = 14 \<and>
   getMinutes utc_zone (dateObj utc_zone sample_dob sample_tob) = 30 \<and>
   getSeconds utc_zone (dateObj utc_zone sample_dob sample_tob) = 0 \<and>
   getMilliseconds utc_zone (dateObj utc_zone sample_dob sample_tob) = 250 \<and>
   (\<exists>ps. planetaryPositions utc_zone instant_provider sample_dob sample_tob = Inr ps \<and>
      length ps = 7 \<and> ps ! 1 = locate (PLANETS ! 1) (sample_vector Moon)) \<and>
   instant_provider Moon (dateObj utc_zone sample_dob later_tob + 1) True =
     Inl (Thrown ''not asked'')"
proof -
  have e: "hour_exists utc_zone (Day (LocalTime utc_zone sample_dob)) (hour utc_zone sample_tob)"
    by (simp add: hour_exists_def LocalTime_def UTC_def utc_zone_def)
  have dob: "getFullYear utc_zone sample_dob = 1990" "getMonth utc_zone sample_dob = 5"
    "getDate utc_zone sample_dob = 15" "getMilliseconds utc_zone sample_dob = 250"
    by code_simp+
  have tob: "hour utc_zone sample_tob = 14" "minute utc_zone sample_tob = 30"
    by code_simp+
  have "\<forall>p\<in>set PLANETS.
      \<exists>v. instant_provider (key p) (dateObj utc_zone sample_dob sample_tob) True = Inr v"
    by (simp add: instant_provider_def)
  then obtain ps where
    ps: "planetaryPositions utc_zone instant_provider sample_dob sample_tob = Inr ps"
    using planetaryPositions_returns_iff by blast
  note c = combined_timestamp [OF e, where g = instant_provider and ps = ps]
  from c ps have len: "length ps = 7"
    and nth: "\<forall>i<7. \<exists>v. instant_provider (key (PLANETS ! i))
        (dateObj utc_zone sample_dob sample_tob) True = Inr v \<and> ps ! i = locate (PLANETS ! i) v"
    by simp_all
  from nth have "\<exists>v. instant_provider (key (PLANETS ! 1))
      (dateObj utc_zone sample_dob sample_tob) True = Inr v \<and> ps ! 1 = locate (PLANETS ! 1) v"
    by simp
  then have moon: "ps ! 1 = locate (PLANETS ! 1) (sample_vector Moon)"
    by (auto simp: instant_provider_def PLANETS_def)
  have other: "instant_provider Moon (dateObj utc_zone sample_dob later_tob + 1) True =
      Inl (Thrown ''not asked'')"
  proof -
    have "hour utc_zone later_tob = 14" "minute utc_zone later_tob = 30"
      by code_simp+
    with tob have "dateObj utc_zone sample_dob later_tob = dateObj utc_zone sample_dob sample_tob"
      by (simp add: dateObj_def)
    then show ?thesis by (simp add: instant_provider_def)
  qed
  from c dob tob ps len moon other show ?thesis by simp
qed

theorem summer_time_gap_moves_the_hour:
  "getFullYear spring_zone gap_dob = 2021 \<and> getMonth spring_zone gap_dob = 2 \<and>
   getDate spring_zone gap_dob = 14 \<and>
   hour spring_zone gap_tob = 2 \<and> minute spring_zone gap_tob = 30 \<and>
   dateObj spring_zone gap_dob gap_tob = 1615707000250 \<and>
   getDate spring_zone (dateObj spring_zone gap_dob gap_tob) = 14 \<and>
   getHours spring_zone (dateObj spring_zone gap_dob gap_tob) = 3 \<and>
   getMinutes spring_zone (dateObj spring_zone gap_dob gap_tob) = 30"
proof (intro conjI)
  show "getFullYear spring_zone gap_dob = 2021" by code_simp
  show "getMonth spring_zone gap_dob = 2" by code_simp
  show "getDate spring_zone gap_dob = 14" by code_simp
  show "hour spring_zone gap_tob = 2" by code_simp
  show "minute spring_zone gap_tob = 30" by code_simp
  show "dateObj spring_zone gap_dob gap_tob = 1615707000250" by code_simp
  show "getDate spring_zone (dateObj spring_zone gap_dob gap_tob) = 14" by code_simp
  show "getHours spring_zone (dateObj spring_zone gap_dob gap_tob) = 3" by code_simp
  show "getMinutes spring_zone (dateObj spring_zone gap_dob gap_tob) = 30" by code_simp
qed

text \<open>
  Claim C8: the marker of the body at index \<open>i\<close> is at radius
  \<open>innerRadius - 20 - (i mod 2) * 15\<close>: \<open>innerRadius - 20\<close> at an even index,
  \<open>innerRadius - 35\<close> at an odd one, so two neighbours in the list never share a
  radius, whatever their longitudes.
\<close>

theorem alternating_radius:
  "planetRadius i = innerRadius - 20 - real (i mod 2) * 15 \<and>
   innerRadius = 110 \<and>
   (even i \<longrightarrow> planetRadius i = innerRadius - 20) \<and>
   (odd i \<longrightarrow> planetRadius i = innerRadius - 35) \<and>
   planetRadius i \<noteq> planetRadius (Suc i) \<and>
   (i < length ps \<longrightarrow>
      planetMarks ps ! i = getCoordinates (degree (ps ! i)) (planetRadius i))"
proof (intro conjI impI)
  show "planetRadius i = innerRadius - 20 - real (i mod 2) * 15"
    by (simp add: planetRadius_def)
  show "innerRadius = 110"
    by (simp add: innerRadius_def radius_def size_svg_def)
  show e: "planetRadius i = innerRadius - 20" if "even i"
    using that by (simp add: planetRadius_def)
  show o: "planetRadius i = innerRadius - 35" if "odd i"
    using that by (simp add: planetRadius_def odd_iff_mod_2_eq_one)
  show "planetRadius i \<noteq> planetRadius (Suc i)"
    by (cases "even i") (simp_all add: planetRadius_def odd_iff_mod_2_eq_one mod_Suc)
  show "planetMarks ps ! i = getCoordinates (degree (ps ! i)) (planetRadius i)"
    if "i < length ps"
    using that by (rule planetMarks_nth)
qed

theorem alternating_radius_witness:
  "planetRadius 2 = 90 \<and> planetRadius 3 = 75 \<and>
   planetMarks [locate (PLANETS ! 0) (sample_vector Moon)] ! 0 =
     getCoordinates (degree (locate (PLANETS ! 0) (sample_vector Moon))) (planetRadius 0)"
  using alternating_radius [of 2 "[]"] alternating_radius [of 3 "[]"]
    alternating_radius [of 0 "[locate (PLANETS ! 0) (sample_vector Moon)]"]
  by simp

text \<open>
  Claim C9: when the index \<open>\<lfloor>longitude / 30\<rfloor>\<close> is not one of 0, ..., 11 the
  lookup in the table gives \<open>undefined\<close> and the name of the sign is the empty string;
  nothing is thrown. Otherwise the name is the table's. Either way the position gets the
  name that belongs to its longitude, and the projector returns whenever the provider
  does, whatever the vectors are.
\<close>

theorem sign_lookup_falls_back:
  "(signIndex L < 0 \<or> 11 < signIndex L \<longrightarrow>
      js_index ZODIAC_SIGNS (signIndex L) = None \<and> signName L = '''') \<and>
   (0 \<le> signIndex L \<and> signIndex L \<le> 11 \<longrightarrow>
      signName L = zodiac_sign.name (ZODIAC_SIGNS ! nat (signIndex L))) \<and>
   sign (locate p v) = signName (degree (locate p v)) \<and>
   ((\<forall>p\<in>set PLANETS. \<exists>v. g (key p) (dateObj tz dob tob) True = Inr v) \<longrightarrow>
      (\<exists>ps. planetaryPositions tz g dob tob = Inr ps))"
proof (intro conjI impI)
  assume "signIndex L < 0 \<or> 11 < signIndex L"
  then show "js_index ZODIAC_SIGNS (signIndex L) = None"
    by (auto simp: js_index_def length_ZODIAC_SIGNS)
  then show "signName L = ''''"
    by (simp add: signName_def or_empty_def)
next
  assume "0 \<le> signIndex L \<and> signIndex L \<le> 11"
  then have "js_index ZODIAC_SIGNS (signIndex L) = Some (ZODIAC_SIGNS ! nat (signIndex L))"
    by (simp add: js_index_def length_ZODIAC_SIGNS)
  then show "signName L = zodiac_sign.name (ZODIAC_SIGNS ! nat (signIndex L))"
    by (simp add: signName_def or_empty_def)
next
  show "sign (locate p v) = signName (degree (locate p v))"
    by (simp add: locate_def Let_def planet.extend_def)
next
  assume "\<forall>p\<in>set PLANETS. \<exists>v. g (key p) (dateObj tz dob tob) True = Inr v"
  then show "\<exists>ps. planetaryPositions tz g dob tob = Inr ps"
    by (simp only: planetaryPositions_returns_iff)
qed

theorem sign_lookup_falls_back_witness:
  "signIndex 360 = 12 \<and> signName 360 = '''' \<and> signIndex (- 1) = - 1 \<and> signName (- 1) = '''' \<and>
   signIndex 45 = 1 \<and> signName 45 = ''Taurus'' \<and>
   (\<exists>ps. planetaryPositions utc_zone sample_provider sample_dob sample_tob = Inr ps)"
proof -
  have i: "signIndex 360 = 12" "signIndex (- 1) = - 1" "signIndex 45 = 1"
    by (simp_all add: signIndex_def)
  have t: "zodiac_sign.name (ZODIAC_SIGNS ! 1) = ''Taurus''"
    by (simp add: ZODIAC_SIGNS_def)
  have h: "\<forall>p\<in>set PLANETS. \<exists>v. sample_provider (key p) (dateObj utc_zone sample_dob sample_tob) True = Inr v"
    by (simp add: sample_provider_def)
  from sign_lookup_falls_back [where L = 360 and g = sample_provider and tz = utc_zone
      and dob = sample_dob and tob = sample_tob] h
  have "\<exists>ps. planetaryPositions utc_zone sample_provider sample_dob sample_tob = Inr ps"
    by blast
  with sign_lookup_falls_back [where L = 360] sign_lookup_falls_back [where L = "- 1"]
    sign_lookup_falls_back [where L = 45] i t
  show ?thesis by simp
qed

text \<open>
  Claim C10: of the time of birth only the hour and the minute are read. Two times of
  birth with the same hour and minute give the same combined timestamp and the same
  positions, whatever their seconds and milliseconds.
\<close>

theorem time_of_birth_by_hour_and_minute:
  assumes "hour tz tob1 = hour tz tob2" and "minute tz tob1 = minute tz tob2"
  shows "dateObj tz dob tob1 = dateObj tz dob tob2 \<and>
         planetaryPositions tz g dob tob1 = planetaryPositions tz g dob tob2"
  using assms by (simp add: planetaryPositions_def dateObj_def)

theorem time_of_birth_by_hour_and_minute_witness:
  "getSeconds utc_zone sample_tob \<noteq> getSeconds utc_zone later_tob \<and>
   getMilliseconds utc_zone sample_tob \<noteq> getMilliseconds utc_zone later_tob \<and>
   planetaryPositions utc_zone sample_provider sample_dob sample_tob =
     planetaryPositions utc_zone sample_provider sample_dob later_tob"
proof -
  have h: "hour utc_zone sample_tob = hour utc_zone later_tob"
    and m: "minute utc_zone sample_tob = minute utc_zone later_tob"
    by code_simp+
  have "getSeconds utc_zone sample_tob \<noteq> getSeconds utc_zone later_tob"
    "getMilliseconds utc_zone sample_tob \<noteq> getMilliseconds utc_zone later_tob"
    by code_simp+
  with time_of_birth_by_hour_and_minute [OF h m, where g = sample_provider and dob = sample_dob]
  show ?thesis by simp
qed

end
